theory Spec2Isabelle
  imports Main "HOL-Library.Word"
begin

section \<open>Basic types of \<^verbatim>\<open>include/mysqlx/common.h\<close>\<close>

text \<open>
  A C++ \<^verbatim>\<open>char\<close> is an Isabelle \<^typ>\<open>char\<close> (eight bits), a \<^verbatim>\<open>std::string\<close> and the
  text of a \<^verbatim>\<open>const char*\<close> a \<^typ>\<open>string\<close>. Addresses and \<^verbatim>\<open>size_t\<close> are 64-bit
  words (an LP64 target); pointer arithmetic on \<^verbatim>\<open>byte*\<close> moves by one address per
  element and wraps like the words do.
\<close>

type_synonym addr = "64 word"
type_synonym size_t = "64 word"

definition NULL :: addr where
  "NULL = 0"

text \<open>
  A \<^verbatim>\<open>const char*\<close> argument is its address together with the characters stored
  from that address to the end of the object it points into. \<^verbatim>\<open>strlen\<close> counts the
  characters before the first zero one; it has no result (undefined behaviour) when the
  object holds no terminator.
\<close>

fun strlen :: "string \<Rightarrow> nat option" where
  "strlen [] = None"
| "strlen (c # cs) = (if c = CHR 0x00 then Some 0 else map_option Suc (strlen cs))"

section \<open>\<^verbatim>\<open>class bytes : public std::pair<byte*, size_t>\<close>\<close>

record bytes =
  first :: addr
  second :: size_t

text \<open>\<^verbatim>\<open>bytes(byte *beg_, byte *end_) : pair(beg_, end_ - beg_)\<close>\<close>

definition bytes_range :: "addr \<Rightarrow> addr \<Rightarrow> bytes" where
  "bytes_range beg en = \<lparr>first = beg, second = en - beg\<rparr>"

text \<open>\<^verbatim>\<open>bytes(byte *beg, size_t len) : pair(beg, len)\<close>\<close>

definition bytes_ptr_len :: "addr \<Rightarrow> size_t \<Rightarrow> bytes" where
  "bytes_ptr_len beg len = \<lparr>first = beg, second = len\<rparr>"

text \<open>
  \<^verbatim>\<open>bytes(const char *str) : pair((byte*)str,0) { if (NULL != str) second = strlen(str); }\<close>
  The second argument is the object \<^verbatim>\<open>str\<close> points into; it is not read when
  \<^verbatim>\<open>str\<close> is null.
\<close>

definition bytes_str :: "addr \<Rightarrow> string \<Rightarrow> bytes option" where
  "bytes_str str obj =
     (let b = \<lparr>first = str, second = 0\<rparr>
      in if NULL \<noteq> str
         then (case strlen obj of
                 None \<Rightarrow> None
               | Some n \<Rightarrow> Some (b\<lparr>second := of_nat n\<rparr>))
         else Some b)"

text \<open>\<^verbatim>\<open>bytes(std::pair<byte*, size_t> buf) : pair(buf)\<close>\<close>

definition bytes_pair :: "addr \<times> size_t \<Rightarrow> bytes" where
  "bytes_pair buf = \<lparr>first = fst buf, second = snd buf\<rparr>"

text \<open>\<^verbatim>\<open>bytes() : pair(NULL, 0)\<close>\<close>

definition bytes_default :: bytes where
  "bytes_default = \<lparr>first = NULL, second = 0\<rparr>"

definition bytes_begin :: "bytes \<Rightarrow> addr" where
  "bytes_begin b = first b"

definition bytes_end :: "bytes \<Rightarrow> addr" where
  "bytes_end b = first b + second b"

definition bytes_length :: "bytes \<Rightarrow> size_t" where
  "bytes_length b = second b"

definition bytes_size :: "bytes \<Rightarrow> size_t" where
  "bytes_size b = bytes_length b"

section \<open>\<^verbatim>\<open>class GUID\<close>\<close>

text \<open>\<^verbatim>\<open>char m_data[32]\<close>: a list that every operation keeps at 32 characters.\<close>

record GUID =
  m_data :: string

definition sizeof_m_data :: nat where
  "sizeof_m_data = 32"

text \<open>
  \<^verbatim>\<open>data[i]\<close> for a null-terminated \<^verbatim>\<open>data\<close>: the text, then the terminator. The
  loop below stops at the first zero character, so it reads no further.
\<close>

definition char_at :: "string \<Rightarrow> nat \<Rightarrow> char" where
  "char_at data i = (if i < length data then data ! i else CHR 0x00)"

text \<open>
  \<^verbatim>\<open>for(unsigned i=0; data[i] && i < sizeof(m_data); ++i) m_data[i]= data[i];\<close>
\<close>

function set_loop :: "string \<Rightarrow> string \<Rightarrow> nat \<Rightarrow> string" where
  "set_loop m data i =
     (if char_at data i \<noteq> CHR 0x00 \<and> i < sizeof_m_data
      then set_loop (m[i := char_at data i]) data (i + 1)
      else m)"
  by pat_completeness auto
termination
  by (relation "measure (\<lambda>(m, data, i). sizeof_m_data - i)") auto

text \<open>
  \<^verbatim>\<open>void set(const char *data)\<close>, and \<^verbatim>\<open>set(const std::string &data)\<close> which passes
  \<^verbatim>\<open>data.c_str()\<close>: in both, \<open>data\<close> is the text before the terminator.
\<close>

definition GUID_set :: "GUID \<Rightarrow> string \<Rightarrow> GUID" where
  "GUID_set g data = g\<lparr>m_data := set_loop (m_data g) data 0\<rparr>"

text \<open>\<^verbatim>\<open>GUID() { memset(m_data, 0, sizeof(m_data)); }\<close>\<close>

definition GUID_default :: GUID where
  "GUID_default = \<lparr>m_data = replicate sizeof_m_data (CHR 0x00)\<rparr>"

text \<open>
  \<^verbatim>\<open>template <typename T> GUID(T data) { set(data); }\<close>
  The constructor does not initialise \<^verbatim>\<open>m_data\<close> before \<^verbatim>\<open>set\<close> runs: the array
  starts with whatever its storage held, the argument \<open>storage\<close>.
\<close>

definition GUID_from :: "string \<Rightarrow> string \<Rightarrow> GUID" where
  "GUID_from storage data = GUID_set \<lparr>m_data = storage\<rparr> data"

text \<open>\<^verbatim>\<open>template<typename T> GUID& operator=(T data) { set(data); return *this; }\<close>\<close>

definition GUID_assign :: "GUID \<Rightarrow> string \<Rightarrow> GUID" where
  "GUID_assign g data = GUID_set g data"

text \<open>\<^verbatim>\<open>operator std::string() const { return std::string(m_data, m_data + sizeof(m_data)); }\<close>\<close>

definition GUID_to_string :: "GUID \<Rightarrow> string" where
  "GUID_to_string g = take sizeof_m_data (m_data g)"

text \<open>
  The invariant that the type \<^verbatim>\<open>char[32]\<close> of \<^verbatim>\<open>m_data\<close> gives every GUID object;
  the storage a constructor runs on has it as well.
\<close>

definition GUID_inv :: "GUID \<Rightarrow> bool" where
  "GUID_inv g \<longleftrightarrow> length (m_data g) = sizeof_m_data"

section \<open>\<^verbatim>\<open>class Error\<close> and \<^verbatim>\<open>CATCH_AND_WRAP\<close>\<close>

text \<open>
  What a \<^verbatim>\<open>try\<close> block can throw, by the handler that catches it: a
  \<^verbatim>\<open>mysqlx::Error\<close> with its \<^verbatim>\<open>what()\<close>, another \<^verbatim>\<open>std::exception\<close> with its
  \<^verbatim>\<open>what()\<close> (a null-terminated text, by the contract of \<^verbatim>\<open>std::exception\<close>), a
  \<^verbatim>\<open>const char*\<close>, which is null (\<open>None\<close>) or points at a text, or any other
  value, which \<^verbatim>\<open>catch (...)\<close> does not inspect.
\<close>

datatype thrown =
    Error string
  | Std_exception string
  | C_string "string option"
  | Other_value nat

text \<open>
  \<^verbatim>\<open>Error(const char *msg) : std::runtime_error(msg)\<close>
  Building a \<^verbatim>\<open>std::runtime_error\<close> from a null pointer is undefined behaviour: no
  \<^verbatim>\<open>Error\<close> object comes out of it, the result \<open>None\<close>.
\<close>

definition new_Error :: "string option \<Rightarrow> thrown option" where
  "new_Error msg = (case msg of None \<Rightarrow> None | Some m \<Rightarrow> Some (Error m))"

text \<open>\<^verbatim>\<open>inline void throw_error(const char *msg) { throw ::mysqlx::Error(msg); }\<close>\<close>

definition throw_error :: "string option \<Rightarrow> (thrown + 'a) option" where
  "throw_error msg = map_option Inl (new_Error msg)"

text \<open>
  The handlers of \<^verbatim>\<open>CATCH_AND_WRAP\<close>, in their order:
  \<^verbatim>\<open>
  catch (const ::mysqlx::Error&) { throw; }
  catch (const std::exception &e) { throw ::mysqlx::Error(e.what()); }
  catch (const char *e) { throw ::mysqlx::Error(e); }
  catch (...) { throw ::mysqlx::Error("Unknown exception"); }
  \<close>
  The result is what leaves the handler, \<open>None\<close> when the handler runs into undefined
  behaviour.
\<close>

fun rethrow :: "thrown \<Rightarrow> thrown option" where
  "rethrow (Error m) = Some (Error m)"
| "rethrow (Std_exception what) = new_Error (Some what)"
| "rethrow (C_string e) = new_Error e"
| "rethrow (Other_value v) = new_Error (Some ''Unknown exception'')"

text \<open>\<^verbatim>\<open>try { body } CATCH_AND_WRAP\<close>: a body that returns is left alone.\<close>

definition CATCH_AND_WRAP :: "thrown + 'a \<Rightarrow> (thrown + 'a) option" where
  "CATCH_AND_WRAP body =
     (case body of
        Inl e \<Rightarrow> map_option Inl (rethrow e)
      | Inr v \<Rightarrow> Some (Inr v))"

section \<open>\<^verbatim>\<open>operator<<(std::ostream&, const string&)\<close>\<close>

text \<open>
  The state of a \<^verbatim>\<open>std::ostream\<close> that a formatted output of a \<^verbatim>\<open>std::string\<close>
  reads or changes: the characters its stream buffer has taken so far and the number it
  will still take, \<^verbatim>\<open>width()\<close>, \<^verbatim>\<open>fill()\<close>, whether \<^verbatim>\<open>flags() & adjustfield\<close> is
  \<^verbatim>\<open>left\<close>, and \<^verbatim>\<open>good()\<close>.
\<close>

record ostream =
  written :: string
  room :: nat
  width :: nat
  fill :: char
  adjust_left :: bool
  good :: bool

text \<open>
  \<^verbatim>\<open>out << utf8\<close> for a \<^verbatim>\<open>std::string\<close>, the formatted output function of the
  standard library: a stream that is not good takes nothing; otherwise the text goes
  out padded with \<^verbatim>\<open>fill()\<close> to \<^verbatim>\<open>width()\<close> characters when it is shorter, the
  padding in front unless the stream adjusts to the left, and \<^verbatim>\<open>width(0)\<close> is called.
  The stream buffer takes the characters it has room for; when it does not take them
  all, the stream is no longer good.
\<close>

definition ostream_insert :: "ostream \<Rightarrow> string \<Rightarrow> ostream" where
  "ostream_insert out s =
     (if good out
      then (let pad = replicate (width out - length s) (fill out);
                seq = (if adjust_left out then s @ pad else pad @ s)
            in out\<lparr>written := written out @ take (room out) seq,
                   room := room out - length seq,
                   width := 0,
                   good := (length seq \<le> room out)\<rparr>)
      else out)"

text \<open>
  \<^verbatim>\<open>class string : public std::wstring\<close> is a sequence of wide characters, here of 32
  bits. The conversion \<^verbatim>\<open>operator std::string() const\<close> is declared in the header and
  defined elsewhere, so the printing function takes it as the parameter \<open>conv\<close>; it
  may throw.
  \<^verbatim>\<open>
  const std::string utf8(str);
  out << utf8;
  return out;
  \<close>
\<close>

type_synonym wchar_t = "32 word"
type_synonym wstring = "wchar_t list"

definition string_print :: "(wstring \<Rightarrow> thrown + string) \<Rightarrow> ostream \<Rightarrow> wstring \<Rightarrow> thrown + ostream" where
  "string_print conv out str =
     (case conv str of
        Inl e \<Rightarrow> Inl e
      | Inr utf8 \<Rightarrow> Inr (ostream_insert out utf8))"

section \<open>The UTF-8 conversions of \<^verbatim>\<open>class string\<close>\<close>

text \<open>
  Modelled from the spec: the converting constructors \<^verbatim>\<open>string(const char*)\<close>,
  \<^verbatim>\<open>string(const std::string&)\<close> and the conversion \<^verbatim>\<open>operator std::string() const\<close>
  are only declared in the header; their bodies are missing. The spec calls them
  \<open>decodeUtf8\<close> and \<open>encodeUtf8\<close>, asks for the full Unicode range and for a reported
  error on malformed input (the strict policy it recommends). The definitions below are
  the UTF-8 encoding form on code points, with the wide representation taken as one
  32-bit unit per code point.
\<close>

text \<open>
  Modelled from the spec: the code points representable in the wide encoding are the
  Unicode scalar values, that is all code points up to \<open>0x10FFFF\<close> but the surrogates.
\<close>

definition is_scalar_value :: "nat \<Rightarrow> bool" where
  "is_scalar_value c \<longleftrightarrow> c < 0xD800 \<or> (0xE000 \<le> c \<and> c < 0x110000)"

text \<open>Modelled from the spec: a continuation byte \<open>10xxxxxx\<close> with the low six bits of \<open>x\<close>.\<close>

definition cont :: "nat \<Rightarrow> char" where
  "cont x = char_of (0x80 + x mod 0x40)"

text \<open>
  Modelled from the spec: the UTF-8 form of one code point, of one to four bytes;
  \<open>None\<close> for a surrogate or a value beyond the Unicode range.
\<close>

definition encode_cp :: "nat \<Rightarrow> string option" where
  "encode_cp c =
     (if c < 0x80 then Some [char_of c]
      else if c < 0x800 then Some [char_of (0xC0 + c div 0x40), cont c]
      else if c < 0x10000 then
        (if 0xD800 \<le> c \<and> c < 0xE000 then None
         else Some [char_of (0xE0 + c div 0x1000), cont (c div 0x40), cont c])
      else if c < 0x110000 then
        Some [char_of (0xF0 + c div 0x40000), cont (c div 0x1000), cont (c div 0x40), cont c]
      else None)"

text \<open>Modelled from the spec: \<open>encodeUtf8\<close>, which fails as soon as one code point does.\<close>

fun encodeUtf8 :: "nat list \<Rightarrow> string option" where
  "encodeUtf8 [] = Some []"
| "encodeUtf8 (c # cs) =
     (case encode_cp c of
        None \<Rightarrow> None
      | Some u \<Rightarrow> map_option ((@) u) (encodeUtf8 cs))"

text \<open>Modelled from the spec: the test for a continuation byte, and the six bits it carries.\<close>

definition is_cont :: "char \<Rightarrow> bool" where
  "is_cont b \<longleftrightarrow> (0x80 :: nat) \<le> of_char b \<and> (of_char b :: nat) < 0xC0"

definition cont_bits :: "char \<Rightarrow> nat" where
  "cont_bits b = of_char b mod 0x40"

text \<open>
  Modelled from the spec: the strict end of decoding one code point. A value below
  \<open>lo\<close> is an overlong form; it, a surrogate and a value beyond the Unicode range are
  malformed input.
\<close>

definition accept :: "nat \<Rightarrow> nat \<Rightarrow> string \<Rightarrow> (nat \<times> string) option" where
  "accept lo c r = (if lo \<le> c \<and> is_scalar_value c then Some (c, r) else None)"

text \<open>
  Modelled from the spec: decoding the first code point of a byte sequence, with the
  bytes left over. The lead byte gives the length of the form.
\<close>

fun decode_one :: "string \<Rightarrow> (nat \<times> string) option" where
  "decode_one [] = None"
| "decode_one (b0 # bs) =
     (let n0 = of_char b0 :: nat
      in if n0 < 0x80 then Some (n0, bs)
         else if n0 < 0xC0 then None
         else if n0 < 0xE0 then
           (case bs of
              b1 # r \<Rightarrow>
                if is_cont b1
                then accept 0x80 (n0 mod 0x20 * 0x40 + cont_bits b1) r
                else None
            | _ \<Rightarrow> None)
         else if n0 < 0xF0 then
           (case bs of
              b1 # b2 # r \<Rightarrow>
                if is_cont b1 \<and> is_cont b2
                then accept 0x800 ((n0 mod 0x10 * 0x40 + cont_bits b1) * 0x40 + cont_bits b2) r
                else None
            | _ \<Rightarrow> None)
         else if n0 < 0xF8 then
           (case bs of
              b1 # b2 # b3 # r \<Rightarrow>
                if is_cont b1 \<and> is_cont b2 \<and> is_cont b3
                then accept 0x10000
                       (((n0 mod 0x08 * 0x40 + cont_bits b1) * 0x40 + cont_bits b2) * 0x40
                        + cont_bits b3) r
                else None
            | _ \<Rightarrow> None)
         else None)"

text \<open>Modelled from the spec: \<open>decodeUtf8\<close>, which fails at the first malformed form.\<close>

function decodeUtf8 :: "string \<Rightarrow> nat list option" where
  "decodeUtf8 [] = Some []"
| "decodeUtf8 (b # bs) =
     (case decode_one (b # bs) of
        None \<Rightarrow> None
      | Some (c, r) \<Rightarrow> map_option ((#) c) (decodeUtf8 r))"
  by pat_completeness auto
termination
proof (relation "measure length")
  show "wf (measure length)" by simp
next
  fix b :: char and bs :: string and x2 c r
  assume "decode_one (b # bs) = Some x2" and "(c, r) = x2"
  then have "decode_one (b # bs) = Some (c, r)" by simp
  then have "length r < length (b # bs)"
    by (auto simp: Let_def accept_def split: if_splits list.splits)
  then show "(r, b # bs) \<in> measure length" by simp
qed

text \<open>
  Modelled from the spec: the two conversions of the class over the coder above.
  A failed conversion throws the uniform \<^verbatim>\<open>Error\<close>; the spec fixes the kind of
  the error and not its message, so the message here is a placeholder.
\<close>

definition string_from_utf8 :: "string \<Rightarrow> thrown + wstring" where
  "string_from_utf8 u =
     (case decodeUtf8 u of
        None \<Rightarrow> Inl (Error ''string conversion error'')
      | Some cs \<Rightarrow> Inr (map of_nat cs))"

definition string_to_utf8 :: "wstring \<Rightarrow> thrown + string" where
  "string_to_utf8 w =
     (case encodeUtf8 (map unat w) of
        None \<Rightarrow> Inl (Error ''string conversion error'')
      | Some u \<Rightarrow> Inr u)"

section \<open>Byte views\<close>

lemma strlen_text:
  "CHR 0x00 \<notin> set t \<Longrightarrow> strlen (t @ CHR 0x00 # rest) = Some (length t)"
  by (induction t) auto

text \<open>
  C5. For every byte view, however it was constructed, \<^verbatim>\<open>end() - begin()\<close> equals
  \<^verbatim>\<open>length()\<close> (and \<^verbatim>\<open>size()\<close>); a view constructed from two pointers with
  \<open>beg \<le> en\<close> spans from \<open>beg\<close> to \<open>en\<close> and has length \<open>en - beg\<close>.
\<close>

theorem bytes_end_minus_begin:
  "bytes_end v - bytes_begin v = bytes_length v
   \<and> bytes_size v = bytes_length v
   \<and> (beg \<le> en \<longrightarrow>
        unat (bytes_length (bytes_range beg en)) = unat en - unat beg
        \<and> bytes_begin (bytes_range beg en) = beg
        \<and> bytes_end (bytes_range beg en) = en)"
  by (simp add: bytes_end_def bytes_begin_def bytes_length_def bytes_size_def bytes_range_def unat_sub)

text \<open>C5 at the view over the sixteen addresses from \<open>0x1000\<close>.\<close>

theorem bytes_end_minus_begin_witness:
  "(0x1000 :: addr) \<le> 0x1010
   \<and> bytes_end (bytes_range 0x1000 0x1010) - bytes_begin (bytes_range 0x1000 0x1010) = 16
   \<and> unat (bytes_length (bytes_range 0x1000 0x1010)) = 16"
  using bytes_end_minus_begin [of "bytes_range 0x1000 0x1010" "0x1000" "0x1010"]
  by (simp add: bytes_range_def bytes_length_def)

text \<open>
  C2 as stated fails: the view constructed from the null pointer and the length 5 has
  length 5, not 0.
\<close>

theorem bytes_null_len_counterexample:
  "bytes_length (bytes_ptr_len NULL 5) \<noteq> 0"
  by (simp add: bytes_length_def bytes_ptr_len_def)

text \<open>
  C2, amended. A view constructed from a pointer and a length \<open>len\<close> has length
  \<open>len\<close> whatever the pointer is, the null pointer included; the view over a null
  null-terminated text and the default view have length 0.
\<close>

theorem bytes_null_length:
  "bytes_length (bytes_ptr_len beg len) = len
   \<and> map_option bytes_length (bytes_str NULL obj) = Some 0
   \<and> bytes_length bytes_default = 0"
  by (simp add: bytes_length_def bytes_ptr_len_def bytes_str_def bytes_default_def)

text \<open>
  C6. The view over a non-null null-terminated text starts at the text and its length is
  the count of characters before the terminator (as a \<^verbatim>\<open>size_t\<close>, and as a number
  when that count fits in 64 bits); the view over the null pointer is returned without
  an error, with \<open>begin = NULL\<close> and length 0.
\<close>

theorem bytes_str_length:
  "(str \<noteq> NULL \<and> CHR 0x00 \<notin> set t \<longrightarrow>
      (\<exists>v. bytes_str str (t @ CHR 0x00 # rest) = Some v
         \<and> bytes_begin v = str
         \<and> bytes_length v = of_nat (length t)
         \<and> (length t < 2 ^ 64 \<longrightarrow> unat (bytes_length v) = length t)))
   \<and> (\<exists>v. bytes_str NULL obj = Some v \<and> bytes_begin v = NULL \<and> bytes_length v = 0)"
  by (auto simp: bytes_str_def strlen_text bytes_length_def bytes_begin_def unat_of_nat)

text \<open>C6 at the text \<open>abc\<close>, stored at \<open>0x2000\<close> in front of other characters.\<close>

theorem bytes_str_length_witness:
  "(0x2000 :: addr) \<noteq> NULL \<and> CHR 0x00 \<notin> set ''abc'' \<and> length ''abc'' < (2::nat) ^ 64
   \<and> map_option bytes_begin (bytes_str 0x2000 (''abc'' @ CHR 0x00 # ''xyz'')) = Some 0x2000
   \<and> map_option (\<lambda>v. unat (bytes_length v)) (bytes_str 0x2000 (''abc'' @ CHR 0x00 # ''xyz'')) = Some 3"
  using bytes_str_length [of "0x2000" "''abc''" "''xyz''" "[]"]
  by (auto simp: NULL_def)

section \<open>GUID\<close>

declare set_loop.simps [simp del]

lemma length_set_loop: "length (set_loop m data i) = length m"
proof (induction m data i rule: set_loop.induct)
  case (1 m data i)
  then show ?case
    by (subst set_loop.simps) simp
qed

lemma char_at_nonzero: "char_at data i \<noteq> CHR 0x00 \<Longrightarrow> i < length data"
  by (simp add: char_at_def split: if_splits)

lemma set_loop_frame:
  "j < i \<or> min (length data) sizeof_m_data \<le> j \<Longrightarrow> set_loop m data i ! j = m ! j"
proof (induction m data i rule: set_loop.induct)
  case (1 m data i)
  show ?case
  proof (cases "char_at data i \<noteq> CHR 0x00 \<and> i < sizeof_m_data")
    case True
    then have "i < min (length data) sizeof_m_data"
      using char_at_nonzero [of data i] by simp
    with "1.prems" have ne: "j \<noteq> i" and nxt: "j < i + 1 \<or> min (length data) sizeof_m_data \<le> j"
      by auto
    have "set_loop m data i ! j = set_loop (m[i := char_at data i]) data (i + 1) ! j"
      using True by (subst set_loop.simps) simp
    also have "\<dots> = m[i := char_at data i] ! j"
      using True nxt by (intro "1.IH") simp_all
    also have "\<dots> = m ! j"
      using ne by simp
    finally show ?thesis .
  next
    case False
    then show ?thesis
      by (subst set_loop.simps) auto
  qed
qed

lemma set_loop_written:
  "i \<le> j \<Longrightarrow> j < sizeof_m_data \<Longrightarrow> j < length m
   \<Longrightarrow> \<forall>l. i \<le> l \<and> l \<le> j \<longrightarrow> char_at data l \<noteq> CHR 0x00
   \<Longrightarrow> set_loop m data i ! j = char_at data j"
proof (induction m data i rule: set_loop.induct)
  case (1 m data i)
  from "1.prems" have go: "char_at data i \<noteq> CHR 0x00 \<and> i < sizeof_m_data"
    by auto
  then have step: "set_loop m data i ! j = set_loop (m[i := char_at data i]) data (i + 1) ! j"
    by (subst set_loop.simps) simp
  show ?case
  proof (cases "j = i")
    case True
    then have "set_loop (m[i := char_at data i]) data (i + 1) ! j = m[i := char_at data i] ! j"
      by (intro set_loop_frame) simp
    with step True "1.prems"(3) show ?thesis by simp
  next
    case False
    with "1.prems" have "set_loop (m[i := char_at data i]) data (i + 1) ! j = char_at data j"
      using go by (intro "1.IH") auto
    with step show ?thesis by simp
  qed
qed

lemma GUID_set_inv: "GUID_inv g \<Longrightarrow> GUID_inv (GUID_set g data)"
  by (simp add: GUID_inv_def GUID_set_def length_set_loop)

text \<open>
  C9. The default constructor and the constructor from a text give a GUID that holds the
  invariant and assignment keeps it; the conversion to text of every GUID that holds it
  is the whole array as it stands, zero or residual characters included, and so has
  exactly 32 characters.
\<close>

theorem GUID_to_string_length:
  "GUID_inv GUID_default
   \<and> (length storage = 32 \<longrightarrow> GUID_inv (GUID_from storage data))
   \<and> (GUID_inv g \<longrightarrow> GUID_inv (GUID_assign g data))
   \<and> (GUID_inv g \<longrightarrow> GUID_to_string g = m_data g \<and> length (GUID_to_string g) = 32)"
proof -
  have "GUID_inv GUID_default"
    by (simp add: GUID_inv_def GUID_default_def)
  moreover have "GUID_inv (GUID_from storage data)" if "length storage = 32"
    unfolding GUID_from_def using that
    by (intro GUID_set_inv) (simp add: GUID_inv_def sizeof_m_data_def)
  moreover have "GUID_inv (GUID_assign g data)" if "GUID_inv g"
    unfolding GUID_assign_def using that by (rule GUID_set_inv)
  moreover have "GUID_to_string g = m_data g \<and> length (GUID_to_string g) = 32" if "GUID_inv g"
    using that by (simp add: GUID_inv_def GUID_to_string_def sizeof_m_data_def)
  ultimately show ?thesis
    by blast
qed

text \<open>
  C9 at a GUID constructed from \<open>0123456789\<close> over storage full of \<open>U\<close> and then
  assigned \<open>abc\<close>: the text is \<open>abc\<close>, the seven characters left of the first text
  and the 22 left of the storage.
\<close>

theorem GUID_to_string_length_witness:
  "length (replicate 32 (CHR ''U'')) = 32
   \<and> GUID_inv (GUID_from (replicate 32 (CHR ''U'')) ''0123456789'')
   \<and> GUID_to_string (GUID_assign (GUID_from (replicate 32 (CHR ''U'')) ''0123456789'') ''abc'')
       = ''abc3456789'' @ replicate 22 (CHR ''U'')
   \<and> length (GUID_to_string
        (GUID_assign (GUID_from (replicate 32 (CHR ''U'')) ''0123456789'') ''abc'')) = 32"
proof -
  let ?g = "GUID_from (replicate 32 (CHR ''U'')) ''0123456789''"
  have g: "GUID_inv ?g"
    using GUID_to_string_length [where storage = "replicate 32 (CHR ''U'')"
        and data = "''0123456789''"] by simp
  then have "GUID_inv (GUID_assign ?g ''abc'')"
    using GUID_to_string_length [where g = ?g and data = "''abc''"] by blast
  then have "GUID_to_string (GUID_assign ?g ''abc'') = m_data (GUID_assign ?g ''abc'')"
      and len: "length (GUID_to_string (GUID_assign ?g ''abc'')) = 32"
    using GUID_to_string_length [where g = "GUID_assign ?g ''abc''"] by blast+
  moreover have "m_data (GUID_assign ?g ''abc'') = ''abc3456789'' @ replicate 22 (CHR ''U'')"
    by code_simp
  ultimately show ?thesis
    using g by simp
qed

text \<open>
  C10. Setting a GUID from a text \<open>data\<close>, by the constructor or by assignment, leaves
  every position from \<open>min (length data) 32\<close> on as it was and keeps the size of the
  array; when the text has no zero character, the positions before it hold the
  characters of the text.
\<close>

theorem GUID_set_retains:
  "(\<forall>j. min (length data) 32 \<le> j \<longrightarrow>
        m_data (GUID_from storage data) ! j = storage ! j
        \<and> m_data (GUID_assign g data) ! j = m_data g ! j)
   \<and> length (m_data (GUID_from storage data)) = length storage
   \<and> length (m_data (GUID_assign g data)) = length (m_data g)
   \<and> (CHR 0x00 \<notin> set data \<longrightarrow>
        (\<forall>j. j < min (length data) 32 \<longrightarrow>
           (j < length storage \<longrightarrow> m_data (GUID_from storage data) ! j = data ! j)
           \<and> (j < length (m_data g) \<longrightarrow> m_data (GUID_assign g data) ! j = data ! j)))"
proof -
  have nz: "char_at data l \<noteq> CHR 0x00" if "CHR 0x00 \<notin> set data" "l < length data" for l
  proof -
    have "data ! l \<in> set data"
      using that(2) by (rule nth_mem)
    with that(1) have "data ! l \<noteq> CHR 0x00"
      by auto
    with that(2) show ?thesis
      by (simp add: char_at_def)
  qed
  have wr: "set_loop m data 0 ! j = data ! j"
    if "CHR 0x00 \<notin> set data" "j < min (length data) 32" "j < length m" for m j
  proof -
    have "set_loop m data 0 ! j = char_at data j"
      using that nz by (intro set_loop_written) (simp_all add: sizeof_m_data_def)
    then show ?thesis
      using that by (simp add: char_at_def)
  qed
  show ?thesis
    by (simp add: GUID_from_def GUID_assign_def GUID_set_def length_set_loop wr
        set_loop_frame [unfolded sizeof_m_data_def])
qed

text \<open>
  C10 at the text \<open>abc\<close>, set over storage full of \<open>U\<close> and assigned to a GUID
  full of \<open>U\<close>.
\<close>

theorem GUID_set_retains_witness:
  "min (length ''abc'') 32 \<le> 3 \<and> CHR 0x00 \<notin> set ''abc'' \<and> 2 < min (length ''abc'') 32
   \<and> 2 < length (replicate 32 (CHR ''U''))
   \<and> m_data (GUID_from (replicate 32 (CHR ''U'')) ''abc'') ! 3 = CHR ''U''
   \<and> m_data (GUID_from (replicate 32 (CHR ''U'')) ''abc'') ! 2 = CHR ''c''
   \<and> m_data (GUID_assign \<lparr>m_data = replicate 32 (CHR ''U'')\<rparr> ''abc'') ! 3 = CHR ''U''
   \<and> m_data (GUID_assign \<lparr>m_data = replicate 32 (CHR ''U'')\<rparr> ''abc'') ! 2 = CHR ''c''"
  using GUID_set_retains [of "''abc''" "replicate 32 (CHR ''U'')" "\<lparr>m_data = replicate 32 (CHR ''U'')\<rparr>"]
  by simp

text \<open>
  C3 at a GUID constructed from \<open>abc\<close> over storage full of \<open>U\<close>: the conversion
  to text is \<open>abc\<close> followed by the 29 characters the storage held, not by zero bytes.
\<close>

theorem GUID_from_short_text_not_padded:
  "GUID_to_string (GUID_from (replicate 32 (CHR ''U'')) ''abc'') = ''abc'' @ replicate 29 (CHR ''U'')
   \<and> GUID_to_string (GUID_from (replicate 32 (CHR ''U'')) ''abc'')
        \<noteq> ''abc'' @ replicate 29 (CHR 0x00)"
  by code_simp

section \<open>Error wrapping\<close>

lemma rethrow_wraps:
  "rethrow (Error m) = Some (Error m)"
  "rethrow (Std_exception m) = Some (Error m)"
  "rethrow (C_string (Some m)) = Some (Error m)"
  "rethrow (Other_value v) = Some (Error ''Unknown exception'')"
  by (simp_all add: new_Error_def)

lemma CATCH_AND_WRAP_wraps:
  assumes "e \<noteq> C_string None"
  shows "\<exists>msg. CATCH_AND_WRAP (Inl e) = Some (Inl (Error msg))"
  using assms by (cases e) (auto simp: CATCH_AND_WRAP_def new_Error_def)

text \<open>
  C4 at a thrown null \<^verbatim>\<open>const char*\<close>: the third handler builds
  \<^verbatim>\<open>Error\<close> from the null pointer, which is undefined behaviour; no \<^verbatim>\<open>Error\<close> with
  the message \<open>Unknown exception\<close>, and no other \<^verbatim>\<open>Error\<close>, leaves the boundary.
\<close>

theorem CATCH_AND_WRAP_null_text:
  "CATCH_AND_WRAP (Inl (C_string None) :: thrown + unit) = None
   \<and> CATCH_AND_WRAP (Inl (C_string None) :: thrown + unit)
        \<noteq> Some (Inl (Error ''Unknown exception''))"
  by (simp add: CATCH_AND_WRAP_def new_Error_def)

section \<open>UTF-8 round trip\<close>

lemma lead2: "q < 0x20 \<Longrightarrow> (0xC0 + q) mod 0x20 = (q::nat)"
  using mod_mult_self4 [of "0x20" 6 q] by simp
lemma lead3: "q < 0x10 \<Longrightarrow> (0xE0 + q) mod 0x10 = (q::nat)"
  using mod_mult_self4 [of "0x10" 14 q] by simp
lemma lead4: "q < 0x08 \<Longrightarrow> (0xF0 + q) mod 0x08 = (q::nat)"
  using mod_mult_self4 [of "0x08" 30 q] by simp
lemma low6: "(0x80 + x mod 0x40) mod 0x40 = (x::nat) mod 0x40"
  using mod_mult_self4 [of "0x40" 2 "x mod 0x40"] by simp

lemma split6: "c div 0x40 * 0x40 + c mod 0x40 = (c::nat)"
  by simp
lemma div12: "(c::nat) div 0x1000 = c div 0x40 div 0x40"
  by (simp add: div_mult2_eq)
lemma div18: "(c::nat) div 0x40000 = c div 0x40 div 0x40 div 0x40"
  by (simp add: div_mult2_eq)
lemma q2: "c < 0x800 \<Longrightarrow> (c::nat) div 0x40 < 0x20"
  by (simp add: less_mult_imp_div_less)
lemma q3: "c < 0x10000 \<Longrightarrow> (c::nat) div 0x1000 < 0x10"
  by (simp add: less_mult_imp_div_less)
lemma q4: "c < 0x110000 \<Longrightarrow> (c::nat) div 0x40000 < 0x08"
  by (simp add: less_mult_imp_div_less)

lemma of_char_cont: "(of_char (cont x) :: nat) = 0x80 + x mod 0x40"
  by (simp add: cont_def)

lemma is_cont_cont: "is_cont (cont x)"
  unfolding is_cont_def of_char_cont by simp

lemma cont_bits_cont: "cont_bits (cont x) = x mod 0x40"
  unfolding cont_bits_def of_char_cont by (rule low6)

lemma decode_one_1:
  assumes "c < 0x80"
  shows "decode_one (char_of c # rest) = Some (c, rest)"
  using assms by simp

lemma decode_one_lead2:
  assumes "(of_char b0 :: nat) = n0" "0xC0 \<le> n0" "n0 < 0xE0" "is_cont b1"
  shows "decode_one (b0 # b1 # r) = accept 0x80 (n0 mod 0x20 * 0x40 + cont_bits b1) r"
  using assms by (simp add: Let_def)

lemma decode_one_lead3:
  assumes "(of_char b0 :: nat) = n0" "0xE0 \<le> n0" "n0 < 0xF0" "is_cont b1" "is_cont b2"
  shows "decode_one (b0 # b1 # b2 # r)
         = accept 0x800 ((n0 mod 0x10 * 0x40 + cont_bits b1) * 0x40 + cont_bits b2) r"
  using assms by (simp add: Let_def)

lemma decode_one_lead4:
  assumes "(of_char b0 :: nat) = n0" "0xF0 \<le> n0" "n0 < 0xF8"
    "is_cont b1" "is_cont b2" "is_cont b3"
  shows "decode_one (b0 # b1 # b2 # b3 # r)
         = accept 0x10000
             (((n0 mod 0x08 * 0x40 + cont_bits b1) * 0x40 + cont_bits b2) * 0x40 + cont_bits b3) r"
  using assms by (simp add: Let_def)

lemma decode_one_2:
  assumes "0x80 \<le> c" "c < 0x800"
  shows "decode_one (char_of (0xC0 + c div 0x40) # cont c # rest) = Some (c, rest)"
proof -
  have q: "c div 0x40 < 0x20"
    using assms(2) by (rule q2)
  have lead: "(of_char (char_of (0xC0 + c div 0x40) :: char) :: nat) = 0xC0 + c div 0x40"
    using q by simp
  have bits: "(0xC0 + c div 0x40) mod 0x20 * 0x40 + c mod 0x40 = c"
    unfolding lead2 [OF q] by (rule split6)
  have "decode_one (char_of (0xC0 + c div 0x40) # cont c # rest)
        = accept 0x80 ((0xC0 + c div 0x40) mod 0x20 * 0x40 + cont_bits (cont c)) rest"
    using lead q by (intro decode_one_lead2 is_cont_cont) simp_all
  also have "\<dots> = accept 0x80 c rest"
    by (simp only: cont_bits_cont bits)
  also have "\<dots> = Some (c, rest)"
    using assms by (simp add: accept_def is_scalar_value_def)
  finally show ?thesis .
qed

lemma decode_one_3:
  assumes "0x800 \<le> c" "c < 0x10000" "is_scalar_value c"
  shows "decode_one (char_of (0xE0 + c div 0x1000) # cont (c div 0x40) # cont c # rest)
         = Some (c, rest)"
proof -
  have q: "c div 0x1000 < 0x10"
    using assms(2) by (rule q3)
  have lead: "(of_char (char_of (0xE0 + c div 0x1000) :: char) :: nat) = 0xE0 + c div 0x1000"
    using q by simp
  have bits:
    "((0xE0 + c div 0x1000) mod 0x10 * 0x40 + c div 0x40 mod 0x40) * 0x40 + c mod 0x40 = c"
    unfolding lead3 [OF q] unfolding div12 by (simp only: split6)
  have "decode_one (char_of (0xE0 + c div 0x1000) # cont (c div 0x40) # cont c # rest)
        = accept 0x800
            (((0xE0 + c div 0x1000) mod 0x10 * 0x40 + cont_bits (cont (c div 0x40))) * 0x40
             + cont_bits (cont c)) rest"
    using lead q by (intro decode_one_lead3 is_cont_cont) simp_all
  also have "\<dots> = accept 0x800 c rest"
    by (simp only: cont_bits_cont bits)
  also have "\<dots> = Some (c, rest)"
    using assms by (simp add: accept_def)
  finally show ?thesis .
qed

lemma decode_one_4:
  assumes "0x10000 \<le> c" "c < 0x110000"
  shows "decode_one (char_of (0xF0 + c div 0x40000) # cont (c div 0x1000) # cont (c div 0x40)
                       # cont c # rest)
         = Some (c, rest)"
proof -
  have q: "c div 0x40000 < 0x08"
    using assms(2) by (rule q4)
  have lead: "(of_char (char_of (0xF0 + c div 0x40000) :: char) :: nat) = 0xF0 + c div 0x40000"
    using q by simp
  have bits:
    "(((0xF0 + c div 0x40000) mod 0x08 * 0x40 + c div 0x1000 mod 0x40) * 0x40
       + c div 0x40 mod 0x40) * 0x40 + c mod 0x40 = c"
    unfolding lead4 [OF q] unfolding div12 div18 by (simp only: split6)
  have "decode_one (char_of (0xF0 + c div 0x40000) # cont (c div 0x1000) # cont (c div 0x40)
                      # cont c # rest)
        = accept 0x10000
            ((((0xF0 + c div 0x40000) mod 0x08 * 0x40 + cont_bits (cont (c div 0x1000))) * 0x40
              + cont_bits (cont (c div 0x40))) * 0x40 + cont_bits (cont c)) rest"
    using lead q by (intro decode_one_lead4 is_cont_cont) simp_all
  also have "\<dots> = accept 0x10000 c rest"
    by (simp only: cont_bits_cont bits)
  also have "\<dots> = Some (c, rest)"
    using assms by (simp add: accept_def is_scalar_value_def)
  finally show ?thesis .
qed

lemma decode_one_encode_cp:
  assumes "is_scalar_value c"
  shows "\<exists>b bs. encode_cp c = Some (b # bs) \<and> decode_one (b # bs @ rest) = Some (c, rest)"
proof -
  consider "c < 0x80" | "0x80 \<le> c" "c < 0x800" | "0x800 \<le> c" "c < 0x10000"
    | "0x10000 \<le> c" "c < 0x110000"
    using assms unfolding is_scalar_value_def by linarith
  then show ?thesis
  proof cases
    case 1
    then show ?thesis
      using decode_one_1 [of c rest] by (simp add: encode_cp_def del: decode_one.simps)
  next
    case 2
    then show ?thesis
      using decode_one_2 [of c rest] by (simp add: encode_cp_def del: decode_one.simps)
  next
    case 3
    moreover have "\<not> (0xD800 \<le> c \<and> c < 0xE000)"
      using assms 3 unfolding is_scalar_value_def by linarith
    ultimately show ?thesis
      using decode_one_3 [of c rest] assms by (simp add: encode_cp_def del: decode_one.simps)
  next
    case 4
    then show ?thesis
      using decode_one_4 [of c rest] by (simp add: encode_cp_def del: decode_one.simps)
  qed
qed

lemma decodeUtf8_encode_cp:
  assumes "is_scalar_value c"
  shows "\<exists>u. encode_cp c = Some u \<and> decodeUtf8 (u @ rest) = map_option ((#) c) (decodeUtf8 rest)"
proof -
  obtain b bs where "encode_cp c = Some (b # bs)" "decode_one (b # bs @ rest) = Some (c, rest)"
    using decode_one_encode_cp [OF assms] by blast
  then show ?thesis by (simp del: decode_one.simps)
qed

lemma decodeUtf8_encodeUtf8:
  assumes "\<forall>c\<in>set S. is_scalar_value c"
  shows "\<exists>u. encodeUtf8 S = Some u \<and> decodeUtf8 (u @ rest) = map_option ((@) S) (decodeUtf8 rest)"
  using assms
proof (induction S)
  case Nil
  show ?case by (simp add: option.map_ident)
next
  case (Cons c S)
  then obtain u where u: "encodeUtf8 S = Some u"
      "decodeUtf8 (u @ rest) = map_option ((@) S) (decodeUtf8 rest)"
    by auto
  from Cons.prems obtain v where v: "encode_cp c = Some v"
      "decodeUtf8 (v @ u @ rest) = map_option ((#) c) (decodeUtf8 (u @ rest))"
    using decodeUtf8_encode_cp [of c "u @ rest"] by auto
  show ?case
    using u v by (simp add: option.map_comp comp_def)
qed

text \<open>
  C1. For every sequence \<open>S\<close> of Unicode scalar values, those of the supplementary
  planes included, \<open>encodeUtf8\<close> succeeds and \<open>decodeUtf8\<close> of its result is \<open>S\<close>;
  the string constructed from the UTF-8 form is \<open>S\<close> in wide characters, and its
  conversion to UTF-8 gives the same bytes back.
\<close>

theorem utf8_round_trip:
  assumes "\<forall>c\<in>set S. is_scalar_value c"
  shows "\<exists>u. encodeUtf8 S = Some u \<and> decodeUtf8 u = Some S
           \<and> (\<exists>w. string_from_utf8 u = Inr w \<and> map unat w = S \<and> string_to_utf8 w = Inr u)"
proof -
  obtain u where u: "encodeUtf8 S = Some u" "decodeUtf8 u = Some S"
    using decodeUtf8_encodeUtf8 [OF assms, of "[]"] by auto
  have "unat (of_nat c :: wchar_t) = c" if "c \<in> set S" for c
  proof -
    have "c < 0x110000"
      using assms that unfolding is_scalar_value_def by fastforce
    then show ?thesis
      by (simp add: unat_of_nat)
  qed
  then have wide: "map unat (map of_nat S :: wstring) = S"
    by (simp add: map_idI)
  have "string_from_utf8 u = Inr (map of_nat S)"
    using u(2) by (simp add: string_from_utf8_def)
  moreover have "string_to_utf8 (map of_nat S) = Inr u"
    unfolding string_to_utf8_def wide using u(1) by simp
  ultimately show ?thesis
    using u wide by blast
qed

text \<open>
  C1 at \<open>caf\<close>, U+00E9, U+20AC and U+1F600, which take one, two, three and four
  bytes.
\<close>

theorem utf8_round_trip_witness:
  "list_all is_scalar_value [0x63, 0x61, 0x66, 0xE9, 0x20AC, 0x1F600]
   \<and> encodeUtf8 [0x63, 0x61, 0x66, 0xE9, 0x20AC, 0x1F600]
       = Some [CHR ''c'', CHR ''a'', CHR ''f'', CHR 0xC3, CHR 0xA9, CHR 0xE2, CHR 0x82, CHR 0xAC,
               CHR 0xF0, CHR 0x9F, CHR 0x98, CHR 0x80]
   \<and> decodeUtf8 [CHR ''c'', CHR ''a'', CHR ''f'', CHR 0xC3, CHR 0xA9, CHR 0xE2, CHR 0x82, CHR 0xAC,
                 CHR 0xF0, CHR 0x9F, CHR 0x98, CHR 0x80]
       = Some [0x63, 0x61, 0x66, 0xE9, 0x20AC, 0x1F600]"
proof -
  have h: "\<forall>c\<in>set [0x63, 0x61, 0x66, 0xE9, 0x20AC, 0x1F600]. is_scalar_value c"
    by (simp add: is_scalar_value_def)
  have e: "encodeUtf8 [0x63, 0x61, 0x66, 0xE9, 0x20AC, 0x1F600]
       = Some [CHR ''c'', CHR ''a'', CHR ''f'', CHR 0xC3, CHR 0xA9, CHR 0xE2, CHR 0x82, CHR 0xAC,
               CHR 0xF0, CHR 0x9F, CHR 0x98, CHR 0x80]"
    by (simp add: encode_cp_def cont_def) code_simp
  show ?thesis
    using utf8_round_trip [OF h] h e by auto
qed

section \<open>Printing a string\<close>

text \<open>
  C8 as stated fails: on a good stream of width 8, printing \<open>caf\<close> and U+00E9, five
  bytes in UTF-8, writes three fill characters in front of them; on a stream that has
  failed it writes nothing.
\<close>

theorem string_print_padded_counterexample:
  "string_to_utf8 [0x63, 0x61, 0x66, 0xE9] = Inr [CHR ''c'', CHR ''a'', CHR ''f'', CHR 0xC3, CHR 0xA9]
   \<and> map_sum id written
        (string_print string_to_utf8
           \<lparr>written = [], room = 100, width = 8, fill = CHR '' '', adjust_left = False,
            good = True\<rparr>
           [0x63, 0x61, 0x66, 0xE9])
       = Inr [CHR '' '', CHR '' '', CHR '' '', CHR ''c'', CHR ''a'', CHR ''f'', CHR 0xC3, CHR 0xA9]
   \<and> map_sum id written
        (string_print string_to_utf8
           \<lparr>written = [], room = 100, width = 0, fill = CHR '' '', adjust_left = False,
            good = False\<rparr>
           [0x63, 0x61, 0x66, 0xE9])
       = Inr []"
proof -
  have c: "string_to_utf8 [0x63, 0x61, 0x66, 0xE9]
           = Inr [CHR ''c'', CHR ''a'', CHR ''f'', CHR 0xC3, CHR 0xA9]"
    by code_simp
  show ?thesis
    unfolding string_print_def c by (simp add: ostream_insert_def eval_nat_numeral)
qed

lemma written_ostream_insert:
  assumes "good out" "max (width out) (length s) \<le> room out"
  shows "written (ostream_insert out s)
         = written out @ (if adjust_left out then s @ replicate (width out - length s) (fill out)
                          else replicate (width out - length s) (fill out) @ s)"
  using assms by (auto simp: ostream_insert_def Let_def max_def split: if_splits)

lemma ostream_insert_exact:
  assumes "good out" "max (width out) (length s) \<le> room out"
  shows "written (ostream_insert out s) = written out @ s \<longleftrightarrow> width out \<le> length s"
proof
  assume "written (ostream_insert out s) = written out @ s"
  then have "length (written (ostream_insert out s)) = length (written out) + length s"
    by simp
  then show "width out \<le> length s"
    unfolding written_ostream_insert [OF assms] by (simp split: if_splits)
next
  assume "width out \<le> length s"
  then show "written (ostream_insert out s) = written out @ s"
    unfolding written_ostream_insert [OF assms] by simp
qed

lemma ostream_insert_state:
  assumes "good out" "max (width out) (length s) \<le> room out"
  shows "width (ostream_insert out s) = 0 \<and> good (ostream_insert out s)"
  using assms by (auto simp: ostream_insert_def Let_def max_def split: if_splits)

text \<open>
  C8, amended. On a stream in good state whose buffer has room for the output, printing
  a string whose conversion returns \<open>u\<close> writes \<open>u\<close> padded with the fill character
  of the stream to its field width, the padding in front unless the stream adjusts to
  the left; the characters written are exactly \<open>u\<close> if and only if the width is at
  most the length of \<open>u\<close>, as it is at the default width 0. The stream stays good and
  its width is reset to 0. When the conversion throws, the exception leaves the operator.
\<close>

theorem string_print_utf8:
  "(good out \<and> max (width out) (length u) \<le> room out \<and> conv str = Inr u \<longrightarrow>
      (\<exists>out'. string_print conv out str = Inr out'
         \<and> written out'
             = written out
               @ (if adjust_left out then u @ replicate (width out - length u) (fill out)
                  else replicate (width out - length u) (fill out) @ u)
         \<and> (written out' = written out @ u \<longleftrightarrow> width out \<le> length u)
         \<and> length (written out') = length (written out) + max (width out) (length u)
         \<and> width out' = 0 \<and> good out'))
   \<and> (conv str = Inl e \<longrightarrow> string_print conv out str = Inl e)"
proof (intro conjI impI)
  assume h: "good out \<and> max (width out) (length u) \<le> room out \<and> conv str = Inr u"
  then have g: "good out" and r: "max (width out) (length u) \<le> room out"
    by simp_all
  let ?out' = "ostream_insert out u"
  have p: "string_print conv out str = Inr ?out'"
    using h by (simp add: string_print_def)
  have w: "written ?out'
           = written out
             @ (if adjust_left out then u @ replicate (width out - length u) (fill out)
                else replicate (width out - length u) (fill out) @ u)"
    by (rule written_ostream_insert [OF g r])
  have "length (written ?out') = length (written out) + max (width out) (length u)"
    unfolding w by (auto simp: max_def)
  with p w ostream_insert_exact [OF g r] ostream_insert_state [OF g r]
  show "\<exists>out'. string_print conv out str = Inr out'
         \<and> written out'
             = written out
               @ (if adjust_left out then u @ replicate (width out - length u) (fill out)
                  else replicate (width out - length u) (fill out) @ u)
         \<and> (written out' = written out @ u \<longleftrightarrow> width out \<le> length u)
         \<and> length (written out') = length (written out) + max (width out) (length u)
         \<and> width out' = 0 \<and> good out'"
    by blast
next
  assume "conv str = Inl e"
  then show "string_print conv out str = Inl e"
    by (simp add: string_print_def)
qed

text \<open>
  C8 at \<open>caf\<close> and U+00E9, printed to a good stream of width 0 that holds two
  characters, and at a lone surrogate, whose conversion throws.
\<close>

theorem string_print_utf8_witness:
  "good \<lparr>written = ''> '', room = 100, width = 0, fill = CHR '' '', adjust_left = False,
         good = True\<rparr>
   \<and> string_to_utf8 [0x63, 0x61, 0x66, 0xE9] = Inr [CHR ''c'', CHR ''a'', CHR ''f'', CHR 0xC3, CHR 0xA9]
   \<and> map_sum id written
        (string_print string_to_utf8
           \<lparr>written = ''> '', room = 100, width = 0, fill = CHR '' '', adjust_left = False,
            good = True\<rparr>
           [0x63, 0x61, 0x66, 0xE9])
       = Inr [CHR ''>'', CHR '' '', CHR ''c'', CHR ''a'', CHR ''f'', CHR 0xC3, CHR 0xA9]
   \<and> string_to_utf8 [0xD800] = Inl (Error ''string conversion error'')
   \<and> string_print string_to_utf8
        \<lparr>written = ''> '', room = 100, width = 0, fill = CHR '' '', adjust_left = False,
         good = True\<rparr>
        [0xD800]
       = Inl (Error ''string conversion error'')"
proof -
  let ?out = "\<lparr>written = ''> '', room = 100, width = 0, fill = CHR '' '', adjust_left = False,
               good = True\<rparr>"
  have c: "string_to_utf8 [0x63, 0x61, 0x66, 0xE9]
           = Inr [CHR ''c'', CHR ''a'', CHR ''f'', CHR 0xC3, CHR 0xA9]"
    by code_simp
  have d: "string_to_utf8 [0xD800] = Inl (Error ''string conversion error'')"
    by (simp add: string_to_utf8_def encode_cp_def)
  have "map_sum id written (string_print string_to_utf8 ?out [0x63, 0x61, 0x66, 0xE9])
        = Inr [CHR ''>'', CHR '' '', CHR ''c'', CHR ''a'', CHR ''f'', CHR 0xC3, CHR 0xA9]"
    using c string_print_utf8 [where out = ?out and conv = string_to_utf8
        and str = "[0x63, 0x61, 0x66, 0xE9]"
        and u = "[CHR ''c'', CHR ''a'', CHR ''f'', CHR 0xC3, CHR 0xA9]"]
    by auto
  moreover have "string_print string_to_utf8 ?out [0xD800] = Inl (Error ''string conversion error'')"
    using d string_print_utf8 [where out = ?out and conv = string_to_utf8 and str = "[0xD800]"
        and e = "Error ''string conversion error''"]
    by blast
  ultimately show ?thesis
    using c d by simp
qed

end
